theory Spec2Isabelle
  imports Main "HOL-Library.AList"
begin

section \<open>Exceptions\<close>

text \<open>
  The Python exceptions that the coordinator can raise or meet.  \<open>Failure\<close> stands for any
  other subclass of \<open>Exception\<close> (what a task runner raises), with its text.
  \<open>KeyboardInterrupt\<close> is the one exception here that is not a subclass of \<open>Exception\<close>.
\<close>

datatype exn =
    KeyError
  | ValueError
  | UnboundLocalError
  | WebSocketDisconnect
  | RuntimeError
  | HTTPException nat
  | Failure string
  | KeyboardInterrupt

fun is_Exception :: "exn \<Rightarrow> bool" where
  "is_Exception KeyboardInterrupt = False"
| "is_Exception _ = True"

section \<open>Connections and event objects\<close>

text \<open>
  A \<open>WebSocket\<close> and an \<open>asyncio.Event\<close> are objects that several parties hold references
  to, so both live in a store.  A websocket is the address of a connection; the store says
  whether the connection is still up and what has been delivered on it.  An event is the
  address of a flag.
\<close>

type_synonym bytes = string
type_synonym WebSocket = nat
type_synonym Event = nat

record heap =
  connected :: "WebSocket \<Rightarrow> bool"
  inbox :: "WebSocket \<Rightarrow> bytes list"
  event_flag :: "Event \<Rightarrow> bool"
  next_event :: nat

text \<open>
  \<open>ws.send_bytes(b)\<close> of the web framework: delivers on a live connection and raises
  \<open>WebSocketDisconnect\<close> on one that is gone.
\<close>

definition send_bytes :: "WebSocket \<Rightarrow> bytes \<Rightarrow> heap \<Rightarrow> exn option \<times> heap" where
  "send_bytes ws b h =
     (if connected h ws then (None, h\<lparr>inbox := (inbox h)(ws := inbox h ws @ [b])\<rparr>)
      else (Some WebSocketDisconnect, h))"

text \<open>\<open>asyncio.Event()\<close>: a fresh, unset flag.  \<open>Event.set()\<close> raises the flag.\<close>

definition new_Event :: "heap \<Rightarrow> Event \<times> heap" where
  "new_Event h =
     (next_event h,
      h\<lparr>event_flag := (event_flag h)(next_event h := False), next_event := Suc (next_event h)\<rparr>)"

definition Event_set :: "Event \<Rightarrow> heap \<Rightarrow> heap" where
  "Event_set e h = h\<lparr>event_flag := (event_flag h)(e := True)\<rparr>"

text \<open>The environment: a connection goes away.\<close>

definition disconnect :: "WebSocket \<Rightarrow> heap \<Rightarrow> heap" where
  "disconnect ws h = h\<lparr>connected := (connected h)(ws := False)\<rparr>"

section \<open>The broadcast channel: class \<open>WebSocketsManager\<close>\<close>

text \<open>
  The fields of the class.  A Python \<open>set\<close> is kept as the list of its elements in iteration
  order; \<open>set_add\<close> is \<open>set.add\<close>.  Every method body runs inside \<open>with self._lock\<close>, so each
  method is one transition of the channel.  The methods carry the prefix \<open>wsm\<close>.
\<close>

record WebSocketsManager =
  history :: "bytes list"
  websockets :: "WebSocket list"
  disconnect_events :: "WebSocket \<rightharpoonup> Event"
  is_closed :: bool

definition wsm_init :: WebSocketsManager where
  "wsm_init = \<lparr>history = [], websockets = [], disconnect_events = Map.empty, is_closed = False\<rparr>"

definition set_add :: "'a \<Rightarrow> 'a list \<Rightarrow> 'a list" where
  "set_add x xs = (if x \<in> set xs then xs else xs @ [x])"

definition wsm_is_connected :: "WebSocket \<Rightarrow> WebSocketsManager \<Rightarrow> bool" where
  "wsm_is_connected ws m = (ws \<in> set (websockets m))"

definition wsm_is_closed :: "WebSocketsManager \<Rightarrow> bool" where
  "wsm_is_closed m = is_closed m"

text \<open>
  \<open>_send_bytes_to\<close>: True when the websocket has been disconnected from.  Both exceptions
  of a closed connection are caught; any other one would go on to the caller.
\<close>

definition wsm_send_bytes_to :: "WebSocket \<Rightarrow> bytes \<Rightarrow> heap \<Rightarrow> (exn + bool) \<times> heap" where
  "wsm_send_bytes_to ws b h =
     (case send_bytes ws b h of
        (None, h') \<Rightarrow> (Inr False, h')
      | (Some e, h') \<Rightarrow>
          if e = WebSocketDisconnect \<or> e = RuntimeError then (Inr True, h') else (Inl e, h'))"

text \<open>
  \<open>add\<close>: registers the subscriber, gives it a new event and replays the history to it.
  The result of each \<open>_send_bytes_to\<close> is dropped.  The channel's closed flag is not read.
\<close>

fun replay :: "WebSocket \<Rightarrow> bytes list \<Rightarrow> heap \<Rightarrow> exn option \<times> heap" where
  "replay ws [] h = (None, h)"
| "replay ws (bs # rest) h =
     (case wsm_send_bytes_to ws bs h of
        (Inl e, h') \<Rightarrow> (Some e, h')
      | (Inr _, h') \<Rightarrow> replay ws rest h')"

definition wsm_add ::
  "WebSocket \<Rightarrow> WebSocketsManager \<Rightarrow> heap \<Rightarrow> exn option \<times> WebSocketsManager \<times> heap" where
  "wsm_add ws m h =
     (let m1 = m\<lparr>websockets := set_add ws (websockets m)\<rparr>;
          (e, h1) = new_Event h;
          m2 = m1\<lparr>disconnect_events := (disconnect_events m1)(ws \<mapsto> e)\<rparr>;
          (x, h2) = replay ws (history m2) h1
      in (x, m2, h2))"

text \<open>
  \<open>_remove\<close>: \<open>set.remove\<close> and the dictionary lookup raise \<open>KeyError\<close> on a missing
  element; what was changed before the exception stays changed.
\<close>

definition wsm_remove ::
  "WebSocket \<Rightarrow> WebSocketsManager \<Rightarrow> heap \<Rightarrow> exn option \<times> WebSocketsManager \<times> heap" where
  "wsm_remove ws m h =
     (if ws \<notin> set (websockets m) then (Some KeyError, m, h)
      else
        let m1 = m\<lparr>websockets := removeAll ws (websockets m)\<rparr> in
        case disconnect_events m1 ws of
          None \<Rightarrow> (Some KeyError, m1, h)
        | Some e \<Rightarrow>
            (None, m1\<lparr>disconnect_events := (disconnect_events m1)(ws := None)\<rparr>, Event_set e h))"

text \<open>\<open>close\<close>: sets the event of every attached websocket, marks the channel, clears the set.\<close>

fun set_events :: "WebSocket list \<Rightarrow> WebSocketsManager \<Rightarrow> heap \<Rightarrow> exn option \<times> heap" where
  "set_events [] m h = (None, h)"
| "set_events (ws # rest) m h =
     (case disconnect_events m ws of
        None \<Rightarrow> (Some KeyError, h)
      | Some e \<Rightarrow> set_events rest m (Event_set e h))"

definition wsm_close ::
  "WebSocketsManager \<Rightarrow> heap \<Rightarrow> exn option \<times> WebSocketsManager \<times> heap" where
  "wsm_close m h =
     (case set_events (websockets m) m h of
        (Some x, h1) \<Rightarrow> (Some x, m, h1)
      | (None, h1) \<Rightarrow> (None, m\<lparr>is_closed := True, websockets := []\<rparr>, h1))"

text \<open>
  \<open>wait_until_disconnect\<close>: looks the event up (\<open>KeyError\<close> when there is none) and awaits
  it: the call returns when the flag is up and is suspended on the event otherwise.
\<close>

datatype wait = Returned | Suspended Event

definition wsm_wait_until_disconnect ::
  "WebSocket \<Rightarrow> WebSocketsManager \<Rightarrow> heap \<Rightarrow> exn + wait" where
  "wsm_wait_until_disconnect websocket m h =
     (case disconnect_events m websocket of
        None \<Rightarrow> Inl KeyError
      | Some e \<Rightarrow> Inr (if event_flag h e then Returned else Suspended e))"

text \<open>
  \<open>write\<close>: appends to the history, returns when nobody is attached, otherwise sends to
  every attached websocket, collecting the failed ones, and removes those afterwards.
  The channel's closed flag is not read.
\<close>

fun broadcast ::
  "WebSocket list \<Rightarrow> bytes \<Rightarrow> WebSocket list \<Rightarrow> heap \<Rightarrow> (exn + WebSocket list) \<times> heap" where
  "broadcast [] bs to_remove h = (Inr to_remove, h)"
| "broadcast (ws # rest) bs to_remove h =
     (case wsm_send_bytes_to ws bs h of
        (Inl e, h') \<Rightarrow> (Inl e, h')
      | (Inr should_remove, h') \<Rightarrow>
          broadcast rest bs (if should_remove then set_add ws to_remove else to_remove) h')"

fun remove_each ::
  "WebSocket list \<Rightarrow> WebSocketsManager \<Rightarrow> heap \<Rightarrow> exn option \<times> WebSocketsManager \<times> heap" where
  "remove_each [] m h = (None, m, h)"
| "remove_each (ws # rest) m h =
     (case wsm_remove ws m h of
        (Some x, m', h') \<Rightarrow> (Some x, m', h')
      | (None, m', h') \<Rightarrow> remove_each rest m' h')"

definition wsm_write ::
  "bytes \<Rightarrow> WebSocketsManager \<Rightarrow> heap \<Rightarrow> exn option \<times> WebSocketsManager \<times> heap" where
  "wsm_write bs m h =
     (let m1 = m\<lparr>history := history m @ [bs]\<rparr> in
      if length (websockets m1) = 0 then (None, m1, h)
      else
        case broadcast (websockets m1) bs [] h of
          (Inl e, h1) \<Rightarrow> (Some e, m1, h1)
        | (Inr to_remove, h1) \<Rightarrow> remove_each to_remove m1 h1)"

text \<open>
  The representation invariant of the two containers: the websocket set has no duplicates
  (it is a set), and every attached websocket has an entry in the event dictionary.
\<close>

definition wsm_inv :: "WebSocketsManager \<Rightarrow> bool" where
  "wsm_inv m = (distinct (websockets m) \<and> list_all (\<lambda>ws. disconnect_events m ws \<noteq> None) (websockets m))"

text \<open>
  A run of one channel: what its users and the environment do to it, one after the other.
  An exception goes to the caller of the method; the channel keeps the state it has then.
\<close>

datatype action = Add WebSocket | Write bytes | Close | Drop WebSocket

fun exec :: "action \<Rightarrow> WebSocketsManager \<times> heap \<Rightarrow> WebSocketsManager \<times> heap" where
  "exec (Add ws) (m, h) = snd (wsm_add ws m h)"
| "exec (Write bs) (m, h) = snd (wsm_write bs m h)"
| "exec Close (m, h) = snd (wsm_close m h)"
| "exec (Drop ws) (m, h) = (m, disconnect ws h)"

definition run :: "action list \<Rightarrow> WebSocketsManager \<times> heap \<Rightarrow> WebSocketsManager \<times> heap" where
  "run acts s = fold exec acts s"


definition heap_init :: heap where
  "heap_init = \<lparr>connected = (\<lambda>ws. True), inbox = (\<lambda>ws. []), event_flag = (\<lambda>e. False), next_event = 0\<rparr>"

section \<open>Lifecycle hooks: class \<open>TaskLifecycle\<close>\<close>








section \<open>Tasks, results and the external collaborators\<close>

type_synonym LMC = string
type_synonym OpenInterpreterCommand = "(string \<times> string) list"

datatype ResultStatus = Correct | Incorrect | Unknown | Error

record ZeroShotTask =
  zs_id :: string
  zs_prompt :: string

text \<open>
  Modelled from the spec: class \<open>LoadedTask\<close> of \<open>task.py\<close>, which is not among the sources.
  A task is opaque: it gives its identifier and prompt (\<open>to_zero_shot\<close>) and judges the
  messages of a run (\<open>to_result_status\<close>), which may raise.
\<close>

record LoadedTask =
  to_zero_shot :: ZeroShotTask
  to_result_status :: "LMC list \<Rightarrow> exn + ResultStatus"

record TaskResult =
  r_task_id :: string
  r_command :: OpenInterpreterCommand
  r_prompt :: string
  r_start :: nat
  r_end :: nat
  r_messages :: "LMC list"
  r_status :: ResultStatus

text \<open>
  Modelled from the spec: class \<open>BenchmarkRunner\<close> of \<open>runners.py\<close>, which is not among the
  sources.  \<open>run(task, command, write, log)\<close> is called synchronously by the worker; what the
  coordinator sees of it are its calls of \<open>write\<close> and \<open>log\<close>, in order, and then the messages
  it returns or the exception it raises.  An exception of a callback ends the run.
\<close>

datatype emit = Emit_write bytes | Emit_log string

type_synonym BenchmarkRunner =
  "LoadedTask \<Rightarrow> OpenInterpreterCommand \<Rightarrow> emit list \<times> (exn + LMC list)"

fun run_script ::
  "emit list \<Rightarrow> (bytes \<Rightarrow> 's \<Rightarrow> exn option \<times> 's) \<Rightarrow> (string \<Rightarrow> 's \<Rightarrow> exn option \<times> 's) \<Rightarrow>
   's \<Rightarrow> exn option \<times> 's" where
  "run_script [] write log s = (None, s)"
| "run_script (Emit_write b # rest) write log s =
     (case write b s of
        (Some e, s') \<Rightarrow> (Some e, s')
      | (None, s') \<Rightarrow> run_script rest write log s')"
| "run_script (Emit_log t # rest) write log s =
     (case log t s of
        (Some e, s') \<Rightarrow> (Some e, s')
      | (None, s') \<Rightarrow> run_script rest write log s')"

definition runner_run ::
  "BenchmarkRunner \<Rightarrow> LoadedTask \<Rightarrow> OpenInterpreterCommand \<Rightarrow>
   (bytes \<Rightarrow> 's \<Rightarrow> exn option \<times> 's) \<Rightarrow> (string \<Rightarrow> 's \<Rightarrow> exn option \<times> 's) \<Rightarrow>
   's \<Rightarrow> (exn + LMC list) \<times> 's" where
  "runner_run rnnr lt cmd write log s =
     (case run_script (fst (rnnr lt cmd)) write log s of
        (Some e, s') \<Rightarrow> (Inl e, s')
      | (None, s') \<Rightarrow> (snd (rnnr lt cmd), s'))"



text \<open>
  Library functions, taken as parameters: \<open>json.dumps(j).encode("utf-8")\<close> on an update,
  \<open>traceback.format_exc()\<close> on the exception being handled, and \<open>os.cpu_count()\<close>.
\<close>

datatype TaskUpdatePayload = Started | Done ResultStatus | Log string

datatype TaskUpdate = TaskUpdate string TaskUpdatePayload

record library =
  json_dumps :: "TaskUpdate \<Rightarrow> bytes"
  format_exc :: "exn \<Rightarrow> string"
  cpu_count :: "nat option"

text \<open>
  \<open>datetime.now()\<close>: the state carries a clock; a reading returns its value and time moves on.
\<close>

record world =
  clock :: nat

definition now :: "'a world_scheme \<Rightarrow> nat \<times> 'a world_scheme" where
  "now s = (clock s, s\<lparr>clock := Suc (clock s)\<rparr>)"

section \<open>Running one task\<close>

definition DO_NOTHING :: "'b \<Rightarrow> 's \<Rightarrow> exn option \<times> 's" where
  "DO_NOTHING b s = (None, s)"

definition run_and_judge ::
  "BenchmarkRunner \<Rightarrow> LoadedTask \<Rightarrow> OpenInterpreterCommand \<Rightarrow>
   (bytes \<Rightarrow> 's \<Rightarrow> exn option \<times> 's) \<Rightarrow> (string \<Rightarrow> 's \<Rightarrow> exn option \<times> 's) \<Rightarrow>
   's \<Rightarrow> (exn + LMC list \<times> ResultStatus) \<times> 's" where
  "run_and_judge rnnr lt cmd write log s =
     (case runner_run rnnr lt cmd write log s of
        (Inl e, s1) \<Rightarrow> (Inl e, s1)
      | (Inr messages, s1) \<Rightarrow>
          (case to_result_status lt messages of
             Inl e \<Rightarrow> (Inl e, s1)
           | Inr status \<Rightarrow> (Inr (messages, status), s1)))"

text \<open>
  \<open>run_task\<close> (the module's function, used without the server).  The handler catches
  subclasses of \<open>Exception\<close> only.  The \<open>finally\<close> block reads the clock and builds the result
  from \<open>messages\<close> and \<open>status\<close>; when neither the \<open>try\<close> block nor the handler has bound them
  (the exception was not caught, or \<open>log\<close> raised in the handler), building the result
  raises \<open>UnboundLocalError\<close>, which replaces the exception in flight.
\<close>

definition run_task ::
  "library \<Rightarrow> LoadedTask \<Rightarrow> OpenInterpreterCommand \<Rightarrow> BenchmarkRunner \<Rightarrow>
   (string \<Rightarrow> 'a world_scheme \<Rightarrow> exn option \<times> 'a world_scheme) \<Rightarrow>
   'a world_scheme \<Rightarrow> (exn + TaskResult) \<times> 'a world_scheme" where
  "run_task lib lt command runner log s =
     (let zstask = to_zero_shot lt;
          (start, s1) = now s
      in case run_and_judge runner lt command DO_NOTHING log s1 of
           (Inr (messages, status), s2) \<Rightarrow>
             (let (end, s3) = now s2
              in (Inr \<lparr>r_task_id = zs_id zstask, r_command = command, r_prompt = zs_prompt zstask,
                       r_start = start, r_end = end, r_messages = messages, r_status = status\<rparr>, s3))
         | (Inl e, s2) \<Rightarrow>
             if is_Exception e then
               (case log (format_exc lib e) s2 of
                  (Some e', s3) \<Rightarrow> (let (end, s4) = now s3 in (Inl UnboundLocalError, s4))
                | (None, s3) \<Rightarrow>
                    (let (end, s4) = now s3
                     in (Inr \<lparr>r_task_id = zs_id zstask, r_command = command,
                              r_prompt = zs_prompt zstask, r_start = start, r_end = end,
                              r_messages = [], r_status = Error\<rparr>, s4)))
             else (let (end, s3) = now s2 in (Inl UnboundLocalError, s3)))"

section \<open>The worker pool\<close>





section \<open>The coordinator without the server\<close>

text \<open>
  What \<open>logger.debug\<close> is given: each kind of line of the module, with the values that the
  format string holds.
\<close>

datatype debug_line =
    Running_tasks nat "int option"
  | Task_running string
  | Task_log string string
  | Task_done string ResultStatus
  | Done_all

record headless = world +
  debug :: "debug_line list"

definition logger_debug :: "debug_line \<Rightarrow> headless \<Rightarrow> exn option \<times> headless" where
  "logger_debug msg s = (None, s\<lparr>debug := debug s @ [msg]\<rparr>)"

definition make_fs ::
  "string \<Rightarrow>
   (headless \<Rightarrow> exn option \<times> headless) \<times>
   (string \<Rightarrow> headless \<Rightarrow> exn option \<times> headless) \<times>
   (TaskResult \<Rightarrow> headless \<Rightarrow> exn option \<times> headless)" where
  "make_fs ident =
     (logger_debug (Task_running ident),
      (\<lambda>t. logger_debug (Task_log ident t)),
      (\<lambda>r. logger_debug (Task_done (r_task_id r) (r_status r))))"


section \<open>The coordinator with the server\<close>

text \<open>
  The local variables of \<open>run_benchmark_worker_pool_with_server\<close> that its closures share
  and change.  A Python \<open>dict\<close> is kept as the list of its items, with one item for a key.
  The worker threads and the server's event loop work on one store of connections and events.
\<close>

record served = world +
  task_results :: "TaskResult list"
  task_managers :: "(string \<times> WebSocketsManager) list"
  updates_manager :: WebSocketsManager
  store :: heap
  done_event :: bool

text \<open>A method call on the updates manager or on the manager kept under a key.\<close>

definition on_updates ::
  "(WebSocketsManager \<Rightarrow> heap \<Rightarrow> exn option \<times> WebSocketsManager \<times> heap) \<Rightarrow>
   served \<Rightarrow> exn option \<times> served" where
  "on_updates method s =
     (case method (updates_manager s) (store s) of
        (x, m, h) \<Rightarrow> (x, s\<lparr>updates_manager := m, store := h\<rparr>))"

definition on_manager ::
  "string \<Rightarrow> (WebSocketsManager \<Rightarrow> heap \<Rightarrow> exn option \<times> WebSocketsManager \<times> heap) \<Rightarrow>
   served \<Rightarrow> exn option \<times> served" where
  "on_manager key method s =
     (case map_of (task_managers s) key of
        None \<Rightarrow> (Some KeyError, s)
      | Some m0 \<Rightarrow>
          (case method m0 (store s) of
             (x, m, h) \<Rightarrow> (x, s\<lparr>task_managers := AList.update key m (task_managers s), store := h\<rparr>)))"

definition write_json :: "library \<Rightarrow> TaskUpdate \<Rightarrow> served \<Rightarrow> exn option \<times> served" where
  "write_json lib j s = on_updates (wsm_write (json_dumps lib j)) s"

text \<open>
  \<open>make_update_fns\<close>: the three callbacks of one task.  All of them publish on the updates
  manager.  \<open>done\<close> also records the result, closes the task's own manager and sets the
  completion event once as many results are recorded as there are tasks.
\<close>

definition make_update_fns ::
  "library \<Rightarrow> nat \<Rightarrow> string \<Rightarrow>
   (served \<Rightarrow> exn option \<times> served) \<times>
   (string \<Rightarrow> served \<Rightarrow> exn option \<times> served) \<times>
   (TaskResult \<Rightarrow> served \<Rightarrow> exn option \<times> served)" where
  "make_update_fns lib n_tasks ident =
     (write_json lib (TaskUpdate ident Started),
      (\<lambda>t. write_json lib (TaskUpdate ident (Log t))),
      (\<lambda>result s.
         case write_json lib (TaskUpdate ident (Done (r_status result))) s of
           (Some e, s1) \<Rightarrow> (Some e, s1)
         | (None, s1) \<Rightarrow>
             (let s2 = s1\<lparr>task_results := task_results s1 @ [result]\<rparr>
              in case on_manager ident wsm_close s2 of
                   (Some e, s3) \<Rightarrow> (Some e, s3)
                 | (None, s3) \<Rightarrow>
                     (None, if length (task_results s3) \<ge> n_tasks
                            then s3\<lparr>done_event := True\<rparr> else s3))))"

text \<open>
  The nested \<open>run_task\<close>.  \<open>ws_manager\<close> is the task's own manager, known by its key;
  the runner's \<open>write\<close> goes to it, and \<open>log\<close> is the callback given.
\<close>

definition server_run_task ::
  "library \<Rightarrow> BenchmarkRunner \<Rightarrow> OpenInterpreterCommand \<Rightarrow> LoadedTask \<Rightarrow> ZeroShotTask \<Rightarrow> string \<Rightarrow>
   (string \<Rightarrow> served \<Rightarrow> exn option \<times> served) \<Rightarrow> served \<Rightarrow> (exn + TaskResult) \<times> served" where
  "server_run_task lib rnnr cmd lt zs ws_manager log s =
     (let write = (\<lambda>b. on_manager ws_manager (wsm_write b));
          (start, s1) = now s
      in case run_and_judge rnnr lt cmd write log s1 of
           (Inr (messages, status), s2) \<Rightarrow>
             (let (end, s3) = now s2
              in (Inr \<lparr>r_task_id = zs_id zs, r_command = cmd, r_prompt = zs_prompt zs,
                       r_start = start, r_end = end, r_messages = messages, r_status = status\<rparr>, s3))
         | (Inl e, s2) \<Rightarrow>
             if is_Exception e then
               (case log (format_exc lib e) s2 of
                  (Some e', s3) \<Rightarrow> (let (end, s4) = now s3 in (Inl UnboundLocalError, s4))
                | (None, s3) \<Rightarrow>
                    (let (end, s4) = now s3
                     in (Inr \<lparr>r_task_id = zs_id zs, r_command = cmd, r_prompt = zs_prompt zs,
                              r_start = start, r_end = end, r_messages = [], r_status = Error\<rparr>, s4)))
             else (let (end, s3) = now s2 in (Inl UnboundLocalError, s3)))"

text \<open>
  The request handlers.  An exception of a handler goes to the web framework.
  \<open>websocket.accept()\<close> completes the handshake of the connection and touches nothing of the
  coordinator.  A handler that awaits a disconnect gives the state of that wait.
\<close>

definition view ::
  "(string \<times> ZeroShotTask) list \<Rightarrow> OpenInterpreterCommand \<Rightarrow> string \<Rightarrow>
   exn + string \<times> string \<times> OpenInterpreterCommand" where
  "view zs_map cmd task_id =
     (case map_of zs_map task_id of
        None \<Rightarrow> Inl (HTTPException 404)
      | Some zst \<Rightarrow> Inr (task_id, zs_prompt zst, cmd))"

definition logs :: "WebSocket \<Rightarrow> string \<Rightarrow> served \<Rightarrow> (exn + wait) \<times> served" where
  "logs websocket task_id s =
     (case on_manager task_id (wsm_add websocket) s of
        (Some e, s1) \<Rightarrow> (Inl e, s1)
      | (None, s1) \<Rightarrow>
          (case map_of (task_managers s1) task_id of
             None \<Rightarrow> (Inl KeyError, s1)
           | Some m \<Rightarrow> (wsm_wait_until_disconnect websocket m (store s1), s1)))"

definition stop :: "string \<Rightarrow> served \<Rightarrow> (exn + bool) \<times> served" where
  "stop task_id s =
     (case on_manager task_id wsm_close s of
        (Some e, s1) \<Rightarrow> (Inl e, s1)
      | (None, s1) \<Rightarrow> (Inr True, s1))"

definition full :: "(LoadedTask \<times> ZeroShotTask) list \<Rightarrow> string list" where
  "full zs_tasks = map (\<lambda>(t, zs). zs_id zs) zs_tasks"

definition updates :: "WebSocket \<Rightarrow> served \<Rightarrow> (exn + wait) \<times> served" where
  "updates websocket s =
     (case on_updates (wsm_add websocket) s of
        (Some e, s1) \<Rightarrow> (Inl e, s1)
      | (None, s1) \<Rightarrow> (wsm_wait_until_disconnect websocket (updates_manager s1) (store s1), s1))"

text \<open>
  What happens while the pool works: a worker runs a submitted call (they are run one after
  the other, as in \<open>pool_run\<close>), an observer makes a request, or a connection goes away.
\<close>

datatype event =
    Runs nat
  | Request_logs WebSocket string
  | Request_stop string
  | Request_updates WebSocket
  | Connection_lost WebSocket

fun observe :: "event \<Rightarrow> served \<Rightarrow> served" where
  "observe (Runs i) s = s"
| "observe (Request_logs websocket task_id) s = snd (logs websocket task_id s)"
| "observe (Request_stop task_id) s = snd (stop task_id s)"
| "observe (Request_updates websocket) s = snd (updates websocket s)"
| "observe (Connection_lost websocket) s = s\<lparr>store := disconnect websocket (store s)\<rparr>"


text \<open>
  \<open>while True: time.sleep(1)\<close> inside \<open>try ... except KeyboardInterrupt\<close>: the loop ends
  with the sleep during which the interrupt arrives, and not at all when none arrives.
\<close>

partial_function (option) sleep_loop :: "(nat \<Rightarrow> bool) \<Rightarrow> nat \<Rightarrow> nat option" where
  "sleep_loop interrupted t = (if interrupted t then Some t else sleep_loop interrupted (Suc t))"


text \<open>
  What the coordinator sets up before the pool starts: the two dictionaries keyed by task
  identifier (a later task with the same identifier replaces the entry of an earlier one),
  the shared state, and the calls it submits to the pool, one for each task in order.
\<close>

definition make_zs_map :: "(LoadedTask \<times> ZeroShotTask) list \<Rightarrow> (string \<times> ZeroShotTask) list" where
  "make_zs_map zs_tasks = fold (\<lambda>(t, zst). AList.update (zs_id zst) zst) zs_tasks []"





section \<open>Notions used in the statements\<close>








text \<open>An interrupt that arrives during sleep \<open>k\<close>, and one that never arrives.\<close>

definition interrupt_at :: "nat \<Rightarrow> nat \<Rightarrow> bool" where
  "interrupt_at k t = (t = k)"


section \<open>Examples\<close>


definition ex_two :: "WebSocketsManager \<times> heap" where
  "ex_two = run [Add 1, Add 2, Drop 2] (wsm_init, heap_init)"

definition ex_closed :: "WebSocketsManager \<times> heap" where
  "ex_closed = run [Write ''a'', Close] (wsm_init, heap_init)"

definition ex_reopened :: "WebSocketsManager \<times> heap" where
  "ex_reopened = run [Close, Add 7] (wsm_init, heap_init)"

text \<open>
  A batch of three tasks A, B and C.  The runner of B logs one line and raises; the runner
  of the others writes once and returns one message, which is judged correct.
\<close>

definition ex_lib :: library where
  "ex_lib =
     \<lparr>json_dumps =
        (\<lambda>j. case j of
           TaskUpdate ident Started \<Rightarrow> ident @ '' started''
         | TaskUpdate ident (Done st) \<Rightarrow> ident @ '' done''
         | TaskUpdate ident (Log t) \<Rightarrow> ident @ '' log '' @ t),
      format_exc = (\<lambda>e. case e of Failure t \<Rightarrow> ''Traceback: '' @ t | _ \<Rightarrow> ''Traceback''),
      cpu_count = Some 4\<rparr>"

definition ex_task :: "string \<Rightarrow> LoadedTask" where
  "ex_task ident =
     \<lparr>to_zero_shot = \<lparr>zs_id = ident, zs_prompt = ''prompt of '' @ ident\<rparr>,
      to_result_status = (\<lambda>messages. Inr Correct)\<rparr>"

definition ex_runner :: BenchmarkRunner where
  "ex_runner lt cmd =
     (if zs_id (to_zero_shot lt) = ''B'' then ([Emit_log ''one line''], Inl (Failure ''boom''))
      else ([Emit_write ''out''], Inr [''answer'']))"


text \<open>
  The states in which the batch starts, without and with the server; with the server also
  the state after observer 9 has attached to the channel of B and observer 8 to the updates
  channel, and a sequence of events in which B finishes first.
\<close>

definition ex_headless :: headless where
  "ex_headless = \<lparr>clock = 0, debug = []\<rparr>"


definition ex_served :: served where
  "ex_served =
     \<lparr>clock = 0, task_results = [],
      task_managers = [(''A'', wsm_init), (''B'', wsm_init), (''C'', wsm_init)],
      updates_manager = wsm_init, store = heap_init, done_event = False\<rparr>"

definition ex_watched :: served where
  "ex_watched = fold observe [Request_logs 9 ''B'', Request_updates 8] ex_served"

definition ex_zs_tasks :: "(LoadedTask \<times> ZeroShotTask) list" where
  "ex_zs_tasks = map (\<lambda>t. (t, to_zero_shot t)) (map ex_task [''A'', ''B'', ''C''])"


section \<open>Properties of the broadcast channel\<close>

lemma wsm_send_bytes_to_eq:
  "wsm_send_bytes_to ws b h =
     (if connected h ws then (Inr False, h\<lparr>inbox := (inbox h)(ws := inbox h ws @ [b])\<rparr>)
      else (Inr True, h))"
  by (simp add: wsm_send_bytes_to_def send_bytes_def)

lemma replay_fst: "fst (replay ws bss h) = None"
  by (induction bss arbitrary: h) (simp_all add: wsm_send_bytes_to_eq)

lemma replay_frame:
  "connected (snd (replay ws bss h)) = connected h"
  "event_flag (snd (replay ws bss h)) = event_flag h"
  "next_event (snd (replay ws bss h)) = next_event h"
  by (induction bss arbitrary: h) (simp_all add: wsm_send_bytes_to_eq)

lemma replay_inbox:
  "inbox (snd (replay ws bss h)) w =
     (if w = ws \<and> connected h ws then inbox h w @ bss else inbox h w)"
  by (induction bss arbitrary: h) (auto simp add: wsm_send_bytes_to_eq)

lemma broadcast_frame:
  "connected (snd (broadcast wss bs tr h)) = connected h"
  "event_flag (snd (broadcast wss bs tr h)) = event_flag h"
  "next_event (snd (broadcast wss bs tr h)) = next_event h"
  by (induction wss arbitrary: tr h) (simp_all add: wsm_send_bytes_to_eq)

lemma broadcast_inbox:
  "distinct wss \<Longrightarrow>
   inbox (snd (broadcast wss bs tr h)) w =
     (if w \<in> set wss \<and> connected h w then inbox h w @ [bs] else inbox h w)"
  by (induction wss arbitrary: tr h) (auto simp add: wsm_send_bytes_to_eq broadcast_frame)

lemma set_set_add [simp]: "set (set_add x xs) = insert x (set xs)"
  by (auto simp: set_add_def)

lemma distinct_set_add [simp]: "distinct (set_add x xs) = distinct xs"
  by (auto simp: set_add_def)

lemma broadcast_fst:
  "\<exists>trs. fst (broadcast wss bs tr h) = Inr trs \<and>
     set trs = set tr \<union> {w \<in> set wss. \<not> connected h w} \<and> (distinct tr \<longrightarrow> distinct trs)"
proof (induction wss arbitrary: tr h)
  case Nil
  then show ?case by simp
next
  case (Cons a wss)
  show ?case
  proof (cases "connected h a")
    case True
    obtain trs where "fst (broadcast wss bs tr (h\<lparr>inbox := (inbox h)(a := inbox h a @ [bs])\<rparr>)) = Inr trs"
      "set trs = set tr \<union> {w \<in> set wss. \<not> connected h w}" "distinct tr \<longrightarrow> distinct trs"
      using Cons.IH[of tr "h\<lparr>inbox := (inbox h)(a := inbox h a @ [bs])\<rparr>"] by auto
    with True show ?thesis by (auto simp add: wsm_send_bytes_to_eq)
  next
    case False
    obtain trs where "fst (broadcast wss bs (set_add a tr) h) = Inr trs"
      "set trs = set (set_add a tr) \<union> {w \<in> set wss. \<not> connected h w}"
      "distinct (set_add a tr) \<longrightarrow> distinct trs"
      using Cons.IH[of "set_add a tr" h] by auto
    with False show ?thesis by (auto simp add: wsm_send_bytes_to_eq)
  qed
qed

lemma wsm_remove_ok:
  assumes "ws \<in> set (websockets m)" "disconnect_events m ws = Some e"
  shows "wsm_remove ws m h =
           (None,
            m\<lparr>websockets := removeAll ws (websockets m),
              disconnect_events := (disconnect_events m)(ws := None)\<rparr>,
            Event_set e h)"
  using assms by (simp add: wsm_remove_def)

lemma remove_each_ok:
  assumes "distinct trs" "set trs \<subseteq> set (websockets m)"
    and "\<forall>w \<in> set (websockets m). disconnect_events m w \<noteq> None"
  shows "\<exists>m' h'. remove_each trs m h = (None, m', h') \<and>
           websockets m' = filter (\<lambda>w. w \<notin> set trs) (websockets m) \<and>
           disconnect_events m' = (\<lambda>w. if w \<in> set trs then None else disconnect_events m w) \<and>
           history m' = history m \<and> is_closed m' = is_closed m \<and>
           inbox h' = inbox h \<and> connected h' = connected h \<and> next_event h' = next_event h \<and>
           event_flag h' = (\<lambda>e. event_flag h e \<or> (\<exists>w \<in> set trs. disconnect_events m w = Some e))"
  using assms
proof (induction trs arbitrary: m h)
  case Nil
  then show ?case by simp
next
  case (Cons a trs)
  from Cons.prems obtain e where e: "disconnect_events m a = Some e" and a: "a \<in> set (websockets m)"
    by auto
  define m1 where "m1 = m\<lparr>websockets := removeAll a (websockets m),
              disconnect_events := (disconnect_events m)(a := None)\<rparr>"
  have r: "wsm_remove a m h = (None, m1, Event_set e h)"
    unfolding m1_def by (rule wsm_remove_ok[OF a e])
  have p1: "distinct trs" using Cons.prems by simp
  have p2: "set trs \<subseteq> set (websockets m1)" using Cons.prems by (auto simp: m1_def)
  have p3: "\<forall>w \<in> set (websockets m1). disconnect_events m1 w \<noteq> None"
    using Cons.prems by (auto simp: m1_def)
  from Cons.IH[OF p1 p2 p3, of "Event_set e h"] obtain m' h' where
    IH: "remove_each trs m1 (Event_set e h) = (None, m', h')"
      "websockets m' = filter (\<lambda>w. w \<notin> set trs) (websockets m1)"
      "disconnect_events m' = (\<lambda>w. if w \<in> set trs then None else disconnect_events m1 w)"
      "history m' = history m1" "is_closed m' = is_closed m1"
      "inbox h' = inbox (Event_set e h)" "connected h' = connected (Event_set e h)"
      "next_event h' = next_event (Event_set e h)"
      "event_flag h' = (\<lambda>x. event_flag (Event_set e h) x \<or> (\<exists>w \<in> set trs. disconnect_events m1 w = Some x))"
    by blast
  have w: "websockets m' = filter (\<lambda>w. w \<notin> set (a # trs)) (websockets m)"
    using IH(2) by (simp add: m1_def removeAll_filter_not_eq conj_commute eq_commute)
  have d: "disconnect_events m' = (\<lambda>w. if w \<in> set (a # trs) then None else disconnect_events m w)"
    using IH(3) by (auto simp: m1_def fun_eq_iff)
  have f: "event_flag h' = (\<lambda>x. event_flag h x \<or> (\<exists>w \<in> set (a # trs). disconnect_events m w = Some x))"
    using IH(9) e Cons.prems(1) by (auto simp: m1_def fun_eq_iff Event_set_def)
  show ?case
    using r IH(1,4,5,6,7,8) w d f by (simp add: m1_def Event_set_def)
qed

lemma wsm_inv_iff:
  "wsm_inv m \<longleftrightarrow> distinct (websockets m) \<and> (\<forall>w \<in> set (websockets m). disconnect_events m w \<noteq> None)"
  by (simp add: wsm_inv_def list_all_iff)

lemma wsm_write_ok:
  assumes "wsm_inv m"
  shows "\<exists>m' h'. wsm_write bs m h = (None, m', h') \<and>
           history m' = history m @ [bs] \<and> is_closed m' = is_closed m \<and>
           websockets m' = filter (connected h) (websockets m) \<and>
           disconnect_events m' =
             (\<lambda>w. if w \<in> set (websockets m) \<and> \<not> connected h w then None else disconnect_events m w) \<and>
           inbox h' =
             (\<lambda>w. if w \<in> set (websockets m) \<and> connected h w then inbox h w @ [bs] else inbox h w) \<and>
           connected h' = connected h \<and> next_event h' = next_event h \<and>
           event_flag h' =
             (\<lambda>e. event_flag h e \<or>
                (\<exists>w \<in> set (websockets m). \<not> connected h w \<and> disconnect_events m w = Some e))"
proof (cases "websockets m = []")
  case True
  then show ?thesis by (simp add: wsm_write_def)
next
  case False
  define m1 where "m1 = m\<lparr>history := history m @ [bs]\<rparr>"
  define h1 where "h1 = snd (broadcast (websockets m) bs [] h)"
  from assms have dist: "distinct (websockets m)"
    and ev: "\<forall>w \<in> set (websockets m). disconnect_events m w \<noteq> None"
    by (simp_all add: wsm_inv_iff)
  obtain trs where trs: "fst (broadcast (websockets m) bs [] h) = Inr trs"
    "set trs = {w \<in> set (websockets m). \<not> connected h w}" "distinct trs"
    using broadcast_fst[of "websockets m" bs "[]" h] by auto
  have b: "broadcast (websockets m) bs [] h = (Inr trs, h1)"
    using trs(1) by (simp add: h1_def prod_eq_iff)
  have w: "wsm_write bs m h = remove_each trs m1 h1"
    using False b by (simp add: wsm_write_def m1_def)
  have p2: "set trs \<subseteq> set (websockets m1)" using trs(2) by (auto simp: m1_def)
  have p3: "\<forall>w \<in> set (websockets m1). disconnect_events m1 w \<noteq> None"
    using ev by (simp add: m1_def)
  from remove_each_ok[OF trs(3) p2 p3, of h1] obtain m' h' where
    R: "remove_each trs m1 h1 = (None, m', h')"
      "websockets m' = filter (\<lambda>w. w \<notin> set trs) (websockets m1)"
      "disconnect_events m' = (\<lambda>w. if w \<in> set trs then None else disconnect_events m1 w)"
      "history m' = history m1" "is_closed m' = is_closed m1"
      "inbox h' = inbox h1" "connected h' = connected h1" "next_event h' = next_event h1"
      "event_flag h' = (\<lambda>e. event_flag h1 e \<or> (\<exists>w \<in> set trs. disconnect_events m1 w = Some e))"
    by blast
  have f: "websockets m' = filter (connected h) (websockets m)"
    using R(2) trs(2) by (auto simp: m1_def intro: filter_cong)
  have d: "disconnect_events m' =
             (\<lambda>w. if w \<in> set (websockets m) \<and> \<not> connected h w then None else disconnect_events m w)"
    using R(3) trs(2) by (auto simp: m1_def fun_eq_iff)
  have i: "inbox h' =
             (\<lambda>w. if w \<in> set (websockets m) \<and> connected h w then inbox h w @ [bs] else inbox h w)"
    using R(6) broadcast_inbox[OF dist, of bs "[]" h] by (simp add: h1_def fun_eq_iff)
  have e: "event_flag h' =
             (\<lambda>e. event_flag h e \<or>
                (\<exists>w \<in> set (websockets m). \<not> connected h w \<and> disconnect_events m w = Some e))"
    using R(9) trs(2) by (auto simp: m1_def h1_def fun_eq_iff broadcast_frame)
  show ?thesis
    using w R(1,4,5,7,8) f d i e by (simp add: m1_def h1_def broadcast_frame)
qed

lemma wsm_add_ok:
  "\<exists>m' h'. wsm_add ws m h = (None, m', h') \<and>
     history m' = history m \<and> is_closed m' = is_closed m \<and>
     websockets m' = set_add ws (websockets m) \<and>
     disconnect_events m' = (disconnect_events m)(ws \<mapsto> next_event h) \<and>
     inbox h' = (\<lambda>w. if w = ws \<and> connected h ws then inbox h w @ history m else inbox h w) \<and>
     connected h' = connected h \<and> next_event h' = Suc (next_event h) \<and>
     event_flag h' = (event_flag h)(next_event h := False)"
proof -
  define h1 where "h1 = h\<lparr>event_flag := (event_flag h)(next_event h := False), next_event := Suc (next_event h)\<rparr>"
  have "wsm_add ws m h =
          (None, m\<lparr>websockets := set_add ws (websockets m),
                   disconnect_events := (disconnect_events m)(ws \<mapsto> next_event h)\<rparr>,
           snd (replay ws (history m) h1))"
    by (simp add: wsm_add_def new_Event_def h1_def Let_def case_prod_beta replay_fst)
  then show ?thesis
    by (simp add: replay_frame replay_inbox h1_def fun_eq_iff)
qed

lemma set_events_ok:
  assumes "\<forall>w \<in> set wss. disconnect_events m w \<noteq> None"
  shows "\<exists>h'. set_events wss m h = (None, h') \<and>
           inbox h' = inbox h \<and> connected h' = connected h \<and> next_event h' = next_event h \<and>
           event_flag h' = (\<lambda>e. event_flag h e \<or> (\<exists>w \<in> set wss. disconnect_events m w = Some e))"
  using assms
proof (induction wss arbitrary: h)
  case Nil
  then show ?case by simp
next
  case (Cons a wss)
  from Cons.prems obtain e where e: "disconnect_events m a = Some e" by auto
  from Cons.prems have "\<forall>w \<in> set wss. disconnect_events m w \<noteq> None" by simp
  from Cons.IH[OF this, of "Event_set e h"] obtain h' where
    IH: "set_events wss m (Event_set e h) = (None, h')"
      "inbox h' = inbox (Event_set e h)" "connected h' = connected (Event_set e h)"
      "next_event h' = next_event (Event_set e h)"
      "event_flag h' = (\<lambda>x. event_flag (Event_set e h) x \<or> (\<exists>w \<in> set wss. disconnect_events m w = Some x))"
    by blast
  have "event_flag h' = (\<lambda>x. event_flag h x \<or> (\<exists>w \<in> set (a # wss). disconnect_events m w = Some x))"
    using IH(5) e by (auto simp: fun_eq_iff Event_set_def)
  then show ?case using IH(1-4) e by (simp add: Event_set_def)
qed

lemma wsm_close_ok:
  assumes "wsm_inv m"
  shows "\<exists>h'. wsm_close m h = (None, m\<lparr>is_closed := True, websockets := []\<rparr>, h') \<and>
           inbox h' = inbox h \<and> connected h' = connected h \<and> next_event h' = next_event h \<and>
           event_flag h' =
             (\<lambda>e. event_flag h e \<or> (\<exists>w \<in> set (websockets m). disconnect_events m w = Some e))"
proof -
  from assms have "\<forall>w \<in> set (websockets m). disconnect_events m w \<noteq> None"
    by (simp add: wsm_inv_iff)
  from set_events_ok[OF this, of h] obtain h' where
    "set_events (websockets m) m h = (None, h')"
    "inbox h' = inbox h" "connected h' = connected h" "next_event h' = next_event h"
    "event_flag h' = (\<lambda>e. event_flag h e \<or> (\<exists>w \<in> set (websockets m). disconnect_events m w = Some e))"
    by blast
  then show ?thesis by (simp add: wsm_close_def)
qed

lemma wsm_inv_add: "wsm_inv m \<Longrightarrow> wsm_inv (fst (snd (wsm_add ws m h)))"
  using wsm_add_ok[of ws m h] by (auto simp: wsm_inv_iff)

lemma wsm_inv_write: "wsm_inv m \<Longrightarrow> wsm_inv (fst (snd (wsm_write bs m h)))"
  using wsm_write_ok[of m bs h] by (auto simp: wsm_inv_iff)

lemma wsm_inv_close: "wsm_inv m \<Longrightarrow> wsm_inv (fst (snd (wsm_close m h)))"
  using wsm_close_ok[of m h] by (auto simp: wsm_inv_iff)


lemma wsm_inv_exec: "wsm_inv m \<Longrightarrow> wsm_inv (fst (exec a (m, h)))"
  by (cases a) (simp_all add: wsm_inv_add wsm_inv_write wsm_inv_close)

lemma run_Cons: "run (a # acts) s = run acts (exec a s)"
  by (simp add: run_def)

lemma run_Nil: "run [] s = s"
  by (simp add: run_def)

lemma run_append: "run (xs @ ys) s = run ys (run xs s)"
  by (simp add: run_def)










text \<open>
  Claim C4.  A write to a channel does not raise, whatever connections have gone.  Every
  attached subscriber whose connection is up receives the message and stays attached;
  every subscriber whose delivery failed is removed from the subscriber set and from the
  event dictionary, and its disconnected event is set.
\<close>

theorem write_survives_failed_delivery:
  assumes "wsm_inv m"
  shows "fst (wsm_write bs m h) = None \<and>
         (\<forall>w \<in> set (websockets m). connected h w \<longrightarrow>
            inbox (snd (snd (wsm_write bs m h))) w = inbox h w @ [bs] \<and>
            w \<in> set (websockets (fst (snd (wsm_write bs m h))))) \<and>
         (\<forall>w \<in> set (websockets m). \<not> connected h w \<longrightarrow>
            w \<notin> set (websockets (fst (snd (wsm_write bs m h)))) \<and>
            disconnect_events (fst (snd (wsm_write bs m h))) w = None \<and>
            (\<exists>e. disconnect_events m w = Some e \<and> event_flag (snd (snd (wsm_write bs m h))) e))"
proof -
  from assms have ev: "\<forall>w \<in> set (websockets m). disconnect_events m w \<noteq> None"
    by (simp add: wsm_inv_iff)
  obtain m' h' where w: "wsm_write bs m h = (None, m', h')"
    "websockets m' = filter (connected h) (websockets m)"
    "disconnect_events m' =
       (\<lambda>w. if w \<in> set (websockets m) \<and> \<not> connected h w then None else disconnect_events m w)"
    "inbox h' =
       (\<lambda>w. if w \<in> set (websockets m) \<and> connected h w then inbox h w @ [bs] else inbox h w)"
    "event_flag h' =
       (\<lambda>e. event_flag h e \<or>
          (\<exists>w \<in> set (websockets m). \<not> connected h w \<and> disconnect_events m w = Some e))"
    using wsm_write_ok[OF assms, of bs h] by blast
  have dead: "\<exists>e. disconnect_events m x = Some e \<and> event_flag h' e"
    if "x \<in> set (websockets m)" "\<not> connected h x" for x
  proof -
    from ev that(1) obtain e where "disconnect_events m x = Some e" by auto
    with that w(5) show ?thesis by auto
  qed
  show ?thesis using w(1-4) dead by auto
qed

lemma ex_two_eq:
  "ex_two =
     (\<lparr>history = [], websockets = [1, 2], disconnect_events = [1 \<mapsto> 0, 2 \<mapsto> 1], is_closed = False\<rparr>,
      \<lparr>connected = (\<lambda>ws. ws \<noteq> 2), inbox = (\<lambda>ws. []), event_flag = (\<lambda>e. False), next_event = 2\<rparr>)"
  by (auto simp add: ex_two_def run_def wsm_add_def wsm_init_def heap_init_def new_Event_def
        set_add_def disconnect_def fun_eq_iff)

theorem write_survives_failed_delivery_witness:
  "wsm_inv (fst ex_two) \<and>
   fst (wsm_write ''x'' (fst ex_two) (snd ex_two)) = None \<and>
   inbox (snd (snd (wsm_write ''x'' (fst ex_two) (snd ex_two)))) 1 = [''x''] \<and>
   1 \<in> set (websockets (fst (snd (wsm_write ''x'' (fst ex_two) (snd ex_two))))) \<and>
   2 \<notin> set (websockets (fst (snd (wsm_write ''x'' (fst ex_two) (snd ex_two))))) \<and>
   disconnect_events (fst (snd (wsm_write ''x'' (fst ex_two) (snd ex_two)))) 2 = None \<and>
   event_flag (snd (snd (wsm_write ''x'' (fst ex_two) (snd ex_two)))) 1"
proof -
  have inv: "wsm_inv (fst ex_two)" by (simp add: ex_two_eq wsm_inv_def)
  from write_survives_failed_delivery[OF inv, of "''x''" "snd ex_two"] inv
  show ?thesis by (simp add: ex_two_eq)
qed

lemma ex_closed_eq:
  "ex_closed = (\<lparr>history = [''a''], websockets = [], disconnect_events = Map.empty, is_closed = True\<rparr>, heap_init)"
  by (simp add: ex_closed_def run_def wsm_write_def wsm_close_def wsm_init_def)

lemma ex_reopened_eq:
  "ex_reopened =
     (\<lparr>history = [], websockets = [7], disconnect_events = [7 \<mapsto> 0], is_closed = True\<rparr>,
      \<lparr>connected = (\<lambda>ws. True), inbox = (\<lambda>ws. []), event_flag = (\<lambda>e. False), next_event = 1\<rparr>)"
  by (auto simp add: ex_reopened_def run_def wsm_add_def wsm_close_def wsm_init_def heap_init_def
        new_Event_def set_add_def fun_eq_iff)

text \<open>
  Claim C5, the counterexample.  On a channel that was written to once and then closed, an
  attach returns normally, the subscriber is in the subscriber set, it has been sent the
  history, and its wait is suspended on a new, unset event.
\<close>

theorem attach_after_close_counterexample:
  "is_closed (fst ex_closed) \<and>
   fst (wsm_add 7 (fst ex_closed) (snd ex_closed)) = None \<and>
   websockets (fst (snd (wsm_add 7 (fst ex_closed) (snd ex_closed)))) = [7] \<and>
   inbox (snd (snd (wsm_add 7 (fst ex_closed) (snd ex_closed)))) 7 = [''a''] \<and>
   wsm_wait_until_disconnect 7 (fst (snd (wsm_add 7 (fst ex_closed) (snd ex_closed))))
       (snd (snd (wsm_add 7 (fst ex_closed) (snd ex_closed)))) = Inr (Suspended 0)"
  by (simp add: ex_closed_eq wsm_add_def new_Event_def heap_init_def set_add_def
        wsm_send_bytes_to_eq wsm_wait_until_disconnect_def)

text \<open>
  Claim C5, as amended.  A closed channel still accepts subscribers: \<open>add\<close> does not read
  the closed flag.  An attach to a closed channel returns normally, the channel stays marked
  closed, the subscriber is registered and, when its connection is up, is sent the whole
  history; its wait is then suspended on a fresh event, which only a later close or a
  failed delivery sets.
\<close>

theorem attach_after_close_is_accepted:
  assumes "is_closed m"
  shows "fst (wsm_add w m h) = None \<and>
         is_closed (fst (snd (wsm_add w m h))) \<and>
         w \<in> set (websockets (fst (snd (wsm_add w m h)))) \<and>
         (connected h w \<longrightarrow> inbox (snd (snd (wsm_add w m h))) w = inbox h w @ history m) \<and>
         wsm_wait_until_disconnect w (fst (snd (wsm_add w m h))) (snd (snd (wsm_add w m h)))
           = Inr (Suspended (next_event h))"
proof -
  obtain m' h' where a: "wsm_add w m h = (None, m', h')" "is_closed m' = is_closed m"
    "websockets m' = set_add w (websockets m)"
    "disconnect_events m' = (disconnect_events m)(w \<mapsto> next_event h)"
    "inbox h' = (\<lambda>x. if x = w \<and> connected h w then inbox h x @ history m else inbox h x)"
    "event_flag h' = (event_flag h)(next_event h := False)"
    using wsm_add_ok[of w m h] by blast
  then show ?thesis using assms by (simp add: wsm_wait_until_disconnect_def)
qed

theorem attach_after_close_is_accepted_witness:
  "is_closed (fst ex_closed) \<and>
   fst (wsm_add 7 (fst ex_closed) (snd ex_closed)) = None \<and>
   is_closed (fst (snd (wsm_add 7 (fst ex_closed) (snd ex_closed)))) \<and>
   7 \<in> set (websockets (fst (snd (wsm_add 7 (fst ex_closed) (snd ex_closed))))) \<and>
   inbox (snd (snd (wsm_add 7 (fst ex_closed) (snd ex_closed)))) 7 = [''a'']"
proof -
  have c: "is_closed (fst ex_closed)" by (simp add: ex_closed_eq)
  from attach_after_close_is_accepted[OF c, of 7 "snd ex_closed"] c
  show ?thesis by (simp add: ex_closed_eq heap_init_def)
qed

text \<open>
  Claim C6, the counterexample.  A channel is closed, a subscriber attaches, a message is
  written: the write returns normally, the message is in the history and the subscriber of
  the closed channel has received it.
\<close>

theorem write_after_close_counterexample:
  "is_closed (fst ex_reopened) \<and>
   fst (wsm_write ''late'' (fst ex_reopened) (snd ex_reopened)) = None \<and>
   history (fst (snd (wsm_write ''late'' (fst ex_reopened) (snd ex_reopened)))) = [''late''] \<and>
   inbox (snd ex_reopened) 7 = [] \<and>
   inbox (snd (snd (wsm_write ''late'' (fst ex_reopened) (snd ex_reopened)))) 7 = [''late'']"
  by (simp add: ex_reopened_eq wsm_write_def wsm_send_bytes_to_eq)

text \<open>
  Claim C6, as amended.  A write to a closed channel is neither rejected nor dropped:
  \<open>write\<close> does not read the closed flag.  It returns normally, appends the message to the
  history and delivers it to exactly the subscribers attached at that moment whose
  connection is up, that is, to those that attached after the close.  Closing empties the
  subscriber set, so a write that follows a close at once delivers to nobody.
\<close>

theorem write_after_close_is_recorded_and_delivered:
  assumes "wsm_inv m" and "is_closed m"
  shows "fst (wsm_write bs m h) = None \<and>
         is_closed (fst (snd (wsm_write bs m h))) \<and>
         history (fst (snd (wsm_write bs m h))) = history m @ [bs] \<and>
         (\<forall>w. inbox (snd (snd (wsm_write bs m h))) w =
            (if w \<in> set (websockets m) \<and> connected h w then inbox h w @ [bs] else inbox h w)) \<and>
         (wsm_inv m0 \<longrightarrow>
            websockets (fst (snd (wsm_close m0 h0))) = [] \<and>
            inbox (snd (snd (wsm_write bs (fst (snd (wsm_close m0 h0))) (snd (snd (wsm_close m0 h0))))))
              = inbox h0)"
proof -
  obtain m' h' where w: "wsm_write bs m h = (None, m', h')"
    "history m' = history m @ [bs]" "is_closed m' = is_closed m"
    "inbox h' =
       (\<lambda>w. if w \<in> set (websockets m) \<and> connected h w then inbox h w @ [bs] else inbox h w)"
    using wsm_write_ok[OF assms(1), of bs h] by blast
  have c: "websockets (fst (snd (wsm_close m0 h0))) = [] \<and>
            inbox (snd (snd (wsm_write bs (fst (snd (wsm_close m0 h0))) (snd (snd (wsm_close m0 h0))))))
              = inbox h0" if inv0: "wsm_inv m0"
  proof -
    obtain hc where "wsm_close m0 h0 = (None, m0\<lparr>is_closed := True, websockets := []\<rparr>, hc)"
      "inbox hc = inbox h0"
      using wsm_close_ok[OF inv0, of h0] by blast
    then show ?thesis by (simp add: wsm_write_def)
  qed
  show ?thesis using w assms(2) c by simp
qed

theorem write_after_close_is_recorded_and_delivered_witness:
  "wsm_inv (fst ex_reopened) \<and> is_closed (fst ex_reopened) \<and>
   fst (wsm_write ''late'' (fst ex_reopened) (snd ex_reopened)) = None \<and>
   history (fst (snd (wsm_write ''late'' (fst ex_reopened) (snd ex_reopened)))) = [''late''] \<and>
   inbox (snd (snd (wsm_write ''late'' (fst ex_reopened) (snd ex_reopened)))) 7 = [''late''] \<and>
   wsm_inv (fst ex_two) \<and>
   websockets (fst (snd (wsm_close (fst ex_two) (snd ex_two)))) = [] \<and>
   inbox (snd (snd (wsm_write ''late'' (fst (snd (wsm_close (fst ex_two) (snd ex_two))))
                      (snd (snd (wsm_close (fst ex_two) (snd ex_two))))))) 1 = []"
proof -
  have i: "wsm_inv (fst ex_reopened)" and c: "is_closed (fst ex_reopened)"
    and j: "wsm_inv (fst ex_two)"
    by (simp_all add: ex_reopened_eq ex_two_eq wsm_inv_def)
  from write_after_close_is_recorded_and_delivered
         [OF i c, of "''late''" "snd ex_reopened" "fst ex_two" "snd ex_two"] i c j
  show ?thesis by (simp add: ex_reopened_eq ex_two_eq)
qed

lemma remove_each_events_None:
  "disconnect_events m ws = None \<Longrightarrow> disconnect_events (fst (snd (remove_each trs m h))) ws = None"
  by (induction trs arbitrary: m h)
     (auto simp: wsm_remove_def Let_def split: option.splits prod.splits)

lemma exec_events_None:
  assumes "disconnect_events m ws = None" "a \<noteq> Add ws"
  shows "disconnect_events (fst (exec a (m, h))) ws = None"
proof (cases a)
  case (Add w)
  then show ?thesis using assms wsm_add_ok[of w m h] by auto
next
  case (Write bs)
  then show ?thesis using assms
    by (auto simp: wsm_write_def Let_def remove_each_events_None split: prod.splits sum.splits)
next
  case Close
  then show ?thesis using assms by (auto simp: wsm_close_def split: prod.splits option.splits)
next
  case (Drop w)
  then show ?thesis using assms by simp
qed

lemma run_events_None:
  assumes "disconnect_events m ws = None" "\<forall>a \<in> set acts. a \<noteq> Add ws"
  shows "disconnect_events (fst (run acts (m, h))) ws = None"
  using assms
proof (induction acts arbitrary: m h)
  case Nil
  then show ?case by (simp add: run_Nil)
next
  case (Cons a acts)
  obtain m1 h1 where e: "exec a (m, h) = (m1, h1)" by (cases "exec a (m, h)")
  with exec_events_None[of m ws a h] Cons.prems have "disconnect_events m1 ws = None" by simp
  with Cons.IH[of m1 h1] Cons.prems(2) e show ?case by (simp add: run_Cons)
qed

text \<open>
  Claim C10.  \<open>wait_until_disconnect\<close> raises \<open>KeyError\<close> exactly when the subscriber has no
  entry in the channel's event dictionary.  That is so for a subscriber that was never
  attached, whatever else happened to the channel, and for a subscriber that a write removed
  after its delivery failed.  An attached subscriber has an entry and can be waited on; a
  close leaves the entry in place, and a wait after the close returns.
\<close>

theorem wait_until_disconnect_KeyError:
  "(wsm_wait_until_disconnect ws m h = Inl KeyError \<longleftrightarrow> disconnect_events m ws = None) \<and>
   ((\<forall>a \<in> set acts. a \<noteq> Add ws) \<longrightarrow>
      wsm_wait_until_disconnect ws (fst (run acts (wsm_init, h0))) (snd (run acts (wsm_init, h0)))
        = Inl KeyError) \<and>
   (wsm_inv m \<and> ws \<in> set (websockets m) \<longrightarrow>
      (\<exists>r. wsm_wait_until_disconnect ws m h = Inr r) \<and>
      wsm_wait_until_disconnect ws (fst (snd (wsm_close m h))) (snd (snd (wsm_close m h)))
        = Inr Returned) \<and>
   (wsm_inv m \<and> ws \<in> set (websockets m) \<and> \<not> connected h ws \<longrightarrow>
      wsm_wait_until_disconnect ws (fst (snd (wsm_write bs m h))) (snd (snd (wsm_write bs m h)))
        = Inl KeyError)"
proof -
  have 1: "wsm_wait_until_disconnect ws m h = Inl KeyError \<longleftrightarrow> disconnect_events m ws = None"
    by (simp add: wsm_wait_until_disconnect_def split: option.splits)
  have 2: "wsm_wait_until_disconnect ws (fst (run acts (wsm_init, h0))) (snd (run acts (wsm_init, h0)))
        = Inl KeyError" if "\<forall>a \<in> set acts. a \<noteq> Add ws"
    using run_events_None[OF _ that, of wsm_init h0]
    by (simp add: wsm_wait_until_disconnect_def wsm_init_def)
  have 3: "(\<exists>r. wsm_wait_until_disconnect ws m h = Inr r) \<and>
      wsm_wait_until_disconnect ws (fst (snd (wsm_close m h))) (snd (snd (wsm_close m h)))
        = Inr Returned" if p: "wsm_inv m" "ws \<in> set (websockets m)"
  proof -
    from p obtain e where e: "disconnect_events m ws = Some e" by (auto simp: wsm_inv_iff)
    obtain h' where "wsm_close m h = (None, m\<lparr>is_closed := True, websockets := []\<rparr>, h')"
      "event_flag h' = (\<lambda>e. event_flag h e \<or> (\<exists>w \<in> set (websockets m). disconnect_events m w = Some e))"
      using wsm_close_ok[OF p(1), of h] by blast
    with e p(2) show ?thesis by (auto simp: wsm_wait_until_disconnect_def)
  qed
  have 4: "wsm_wait_until_disconnect ws (fst (snd (wsm_write bs m h))) (snd (snd (wsm_write bs m h)))
        = Inl KeyError" if q: "wsm_inv m" "ws \<in> set (websockets m)" "\<not> connected h ws"
  proof -
    obtain m' h' where "wsm_write bs m h = (None, m', h')"
      "disconnect_events m' =
         (\<lambda>w. if w \<in> set (websockets m) \<and> \<not> connected h w then None else disconnect_events m w)"
      using wsm_write_ok[OF q(1), of bs h] by blast
    with q show ?thesis by (simp add: wsm_wait_until_disconnect_def)
  qed
  show ?thesis using 1 2 3 4 by blast
qed

theorem wait_until_disconnect_KeyError_witness:
  "wsm_inv (fst ex_two) \<and> 2 \<in> set (websockets (fst ex_two)) \<and> \<not> connected (snd ex_two) 2 \<and>
   wsm_wait_until_disconnect 2 (fst (run [Add 1, Write ''x''] (wsm_init, heap_init)))
       (snd (run [Add 1, Write ''x''] (wsm_init, heap_init))) = Inl KeyError \<and>
   wsm_wait_until_disconnect 2 (fst ex_two) (snd ex_two) = Inr (Suspended 1) \<and>
   wsm_wait_until_disconnect 2 (fst (snd (wsm_close (fst ex_two) (snd ex_two))))
       (snd (snd (wsm_close (fst ex_two) (snd ex_two)))) = Inr Returned \<and>
   wsm_wait_until_disconnect 2 (fst (snd (wsm_write ''x'' (fst ex_two) (snd ex_two))))
       (snd (snd (wsm_write ''x'' (fst ex_two) (snd ex_two)))) = Inl KeyError"
proof -
  have i: "wsm_inv (fst ex_two)" "2 \<in> set (websockets (fst ex_two))" "\<not> connected (snd ex_two) 2"
    by (simp_all add: ex_two_eq wsm_inv_def)
  have s: "wsm_wait_until_disconnect 2 (fst ex_two) (snd ex_two) = Inr (Suspended 1)"
    by (simp add: ex_two_eq wsm_wait_until_disconnect_def)
  from wait_until_disconnect_KeyError
         [of 2 "fst ex_two" "snd ex_two" "[Add 1, Write ''x'']" heap_init "''x''"] i s
  show ?thesis by simp
qed

section \<open>Properties of the lifecycle hooks\<close>






section \<open>Properties of running one task\<close>

lemma on_updates_write_ok:
  assumes "wsm_inv (updates_manager s)"
  shows "\<exists>m h. on_updates (wsm_write b) s = (None, s\<lparr>updates_manager := m, store := h\<rparr>) \<and>
           wsm_inv m \<and> history m = history (updates_manager s) @ [b] \<and>
           is_closed m = is_closed (updates_manager s)"
proof -
  obtain m h where w: "wsm_write b (updates_manager s) (store s) = (None, m, h)"
    "history m = history (updates_manager s) @ [b]" "is_closed m = is_closed (updates_manager s)"
    using wsm_write_ok[OF assms, of b "store s"] by blast
  have "wsm_inv m" using wsm_inv_write[OF assms, of b "store s"] w(1) by simp
  with w have "on_updates (wsm_write b) s = (None, s\<lparr>updates_manager := m, store := h\<rparr>) \<and>
           wsm_inv m \<and> history m = history (updates_manager s) @ [b] \<and>
           is_closed m = is_closed (updates_manager s)"
    by (simp add: on_updates_def)
  then show ?thesis by blast
qed

lemma run_task_raises:
  assumes "run_and_judge runner lt command DO_NOTHING log (snd (now s)) = (Inl e, s2)"
    and "is_Exception e" and "log (format_exc lib e) s2 = (None, s3)"
  shows "run_task lib lt command runner log s =
           (Inr \<lparr>r_task_id = zs_id (to_zero_shot lt), r_command = command,
                 r_prompt = zs_prompt (to_zero_shot lt), r_start = clock s, r_end = clock s3,
                 r_messages = [], r_status = Error\<rparr>, snd (now s3))"
  using assms by (simp add: run_task_def now_def Let_def)

lemma server_run_task_raises:
  assumes "run_and_judge rnnr lt cmd (\<lambda>b. on_manager ws_manager (wsm_write b))
             (fst (snd (make_update_fns lib n ident))) (snd (now u)) = (Inl e, u2)"
    and "is_Exception e" and "wsm_inv (updates_manager u2)"
  shows "\<exists>u3. server_run_task lib rnnr cmd lt zs ws_manager (fst (snd (make_update_fns lib n ident))) u =
           (Inr \<lparr>r_task_id = zs_id zs, r_command = cmd, r_prompt = zs_prompt zs,
                 r_start = clock u, r_end = clock u2, r_messages = [], r_status = Error\<rparr>, u3) \<and>
           history (updates_manager u3) =
             history (updates_manager u2) @ [json_dumps lib (TaskUpdate ident (Log (format_exc lib e)))] \<and>
           task_managers u3 = task_managers u2"
proof -
  let ?b = "json_dumps lib (TaskUpdate ident (Log (format_exc lib e)))"
  obtain m h where w: "on_updates (wsm_write ?b) u2 = (None, u2\<lparr>updates_manager := m, store := h\<rparr>)"
    "history m = history (updates_manager u2) @ [?b]"
    using on_updates_write_ok[OF assms(3), of ?b] by blast
  have l: "fst (snd (make_update_fns lib n ident)) (format_exc lib e) u2
             = (None, u2\<lparr>updates_manager := m, store := h\<rparr>)"
    using w(1) by (simp add: make_update_fns_def write_json_def)
  show ?thesis
    using assms(1,2) l w(2) by (simp add: server_run_task_def now_def Let_def)
qed

lemma ex_watched_eq:
  "ex_watched =
     \<lparr>clock = 0, task_results = [],
      task_managers =
        [(''A'', wsm_init),
         (''B'', \<lparr>history = [], websockets = [9], disconnect_events = [9 \<mapsto> 0], is_closed = False\<rparr>),
         (''C'', wsm_init)],
      updates_manager =
        \<lparr>history = [], websockets = [8], disconnect_events = [8 \<mapsto> 1], is_closed = False\<rparr>,
      store = \<lparr>connected = (\<lambda>ws. True), inbox = (\<lambda>ws. []), event_flag = (\<lambda>e. False), next_event = 2\<rparr>,
      done_event = False\<rparr>"
  by (auto simp add: ex_watched_def ex_served_def logs_def updates_def on_manager_def on_updates_def
        wsm_add_def wsm_init_def heap_init_def new_Event_def set_add_def fun_eq_iff)

text \<open>
  Claim C2, the counterexample.  Task B of a batch of three runs with the server; observer 9
  is attached to B's own channel and observer 8 to the updates channel.  B's runner logs
  one line and raises.  The task yields a result with status error, but the failure trace
  is not on B's channel: that channel's history stays empty and observer 9 receives
  nothing.  The line and the trace are on the updates channel.
\<close>

theorem failure_trace_counterexample:
  "fst (server_run_task ex_lib ex_runner [] (ex_task ''B'') (to_zero_shot (ex_task ''B'')) ''B''
          (fst (snd (make_update_fns ex_lib 3 ''B''))) ex_watched) =
     Inr \<lparr>r_task_id = ''B'', r_command = [], r_prompt = ''prompt of B'', r_start = 0, r_end = 1,
          r_messages = [], r_status = Error\<rparr> \<and>
   map_option history (map_of (task_managers (snd
       (server_run_task ex_lib ex_runner [] (ex_task ''B'') (to_zero_shot (ex_task ''B'')) ''B''
          (fst (snd (make_update_fns ex_lib 3 ''B''))) ex_watched))) ''B'') = Some [] \<and>
   inbox (store (snd
       (server_run_task ex_lib ex_runner [] (ex_task ''B'') (to_zero_shot (ex_task ''B'')) ''B''
          (fst (snd (make_update_fns ex_lib 3 ''B''))) ex_watched))) 9 = [] \<and>
   history (updates_manager (snd
       (server_run_task ex_lib ex_runner [] (ex_task ''B'') (to_zero_shot (ex_task ''B'')) ''B''
          (fst (snd (make_update_fns ex_lib 3 ''B''))) ex_watched))) =
     [''B log one line'', ''B log Traceback: boom''] \<and>
   inbox (store (snd
       (server_run_task ex_lib ex_runner [] (ex_task ''B'') (to_zero_shot (ex_task ''B'')) ''B''
          (fst (snd (make_update_fns ex_lib 3 ''B''))) ex_watched))) 8 =
     [''B log one line'', ''B log Traceback: boom'']"
  by (simp add: ex_watched_eq server_run_task_def run_and_judge_def runner_run_def ex_runner_def
        ex_task_def ex_lib_def make_update_fns_def write_json_def on_updates_def now_def
        wsm_write_def wsm_send_bytes_to_eq)

text \<open>
  Claim C2, as amended.  When running and judging a task raises a subclass of \<open>Exception\<close>,
  the exception is caught in \<open>run_task\<close>, its formatted trace is given to the task's log
  callback, and, the callback returning normally, the task yields a result with status
  error, no messages, the start time read before the run and the end time read after it;
  no exception leaves \<open>run_task\<close>.  With the server the log callback publishes the trace as
  a log update of that task on the shared updates channel, which cannot fail while that
  channel's containers are consistent, and the task's own channel is left as the runner's
  writes made it.
\<close>

theorem task_failure_becomes_error_result:
  assumes "run_and_judge runner lt command DO_NOTHING log (snd (now s)) = (Inl e, s2)"
    and "is_Exception e"
    and "log (format_exc lib e) s2 = (None, s3)"
    and "run_and_judge rnnr lt' cmd (\<lambda>b. on_manager ws_manager (wsm_write b))
           (fst (snd (make_update_fns lib n ident))) (snd (now u)) = (Inl e', u2)"
    and "is_Exception e'"
    and "wsm_inv (updates_manager u2)"
  shows "run_task lib lt command runner log s =
           (Inr \<lparr>r_task_id = zs_id (to_zero_shot lt), r_command = command,
                 r_prompt = zs_prompt (to_zero_shot lt), r_start = clock s, r_end = clock s3,
                 r_messages = [], r_status = Error\<rparr>, snd (now s3)) \<and>
         (\<exists>u3. server_run_task lib rnnr cmd lt' zs ws_manager (fst (snd (make_update_fns lib n ident))) u =
                  (Inr \<lparr>r_task_id = zs_id zs, r_command = cmd, r_prompt = zs_prompt zs,
                        r_start = clock u, r_end = clock u2, r_messages = [], r_status = Error\<rparr>, u3) \<and>
                history (updates_manager u3) =
                  history (updates_manager u2) @
                    [json_dumps lib (TaskUpdate ident (Log (format_exc lib e')))] \<and>
                task_managers u3 = task_managers u2)"
  using run_task_raises[OF assms(1,2,3)] server_run_task_raises[OF assms(4,5,6)] by blast

lemma ex_headless_B_raises:
  "run_and_judge ex_runner (ex_task ''B'') [] DO_NOTHING (fst (snd (make_fs ''B'')))
     (snd (now ex_headless)) =
   (Inl (Failure ''boom''), \<lparr>clock = 1, debug = [Task_log ''B'' ''one line'']\<rparr>)"
  by (simp add: run_and_judge_def runner_run_def ex_runner_def ex_task_def make_fs_def
        logger_debug_def now_def ex_headless_def)

lemma ex_served_B_raises:
  "run_and_judge ex_runner (ex_task ''B'') [] (\<lambda>b. on_manager ''B'' (wsm_write b))
     (fst (snd (make_update_fns ex_lib 3 ''B''))) (snd (now ex_watched)) =
   (Inl (Failure ''boom''),
     \<lparr>clock = 1, task_results = [],
      task_managers =
        [(''A'', wsm_init),
         (''B'', \<lparr>history = [], websockets = [9], disconnect_events = [9 \<mapsto> 0], is_closed = False\<rparr>),
         (''C'', wsm_init)],
      updates_manager =
        \<lparr>history = [''B log one line''], websockets = [8], disconnect_events = [8 \<mapsto> 1],
          is_closed = False\<rparr>,
      store = \<lparr>connected = (\<lambda>ws. True), inbox = (\<lambda>ws. if ws = 8 then [''B log one line''] else []),
                event_flag = (\<lambda>e. False), next_event = 2\<rparr>,
      done_event = False\<rparr>)"
  by (auto simp add: ex_watched_eq run_and_judge_def runner_run_def ex_runner_def
        ex_task_def ex_lib_def make_update_fns_def write_json_def on_updates_def now_def
        wsm_write_def wsm_send_bytes_to_eq fun_eq_iff)

theorem task_failure_becomes_error_result_witness:
  "run_task ex_lib (ex_task ''B'') [] ex_runner (fst (snd (make_fs ''B''))) ex_headless =
     (Inr \<lparr>r_task_id = ''B'', r_command = [], r_prompt = ''prompt of B'', r_start = 0, r_end = 1,
           r_messages = [], r_status = Error\<rparr>,
      \<lparr>clock = 2, debug = [Task_log ''B'' ''one line'', Task_log ''B'' ''Traceback: boom'']\<rparr>) \<and>
   fst (server_run_task ex_lib ex_runner [] (ex_task ''B'') (to_zero_shot (ex_task ''B'')) ''B''
          (fst (snd (make_update_fns ex_lib 3 ''B''))) ex_watched) =
     Inr \<lparr>r_task_id = ''B'', r_command = [], r_prompt = ''prompt of B'', r_start = 0, r_end = 1,
          r_messages = [], r_status = Error\<rparr> \<and>
   history (updates_manager (snd
       (server_run_task ex_lib ex_runner [] (ex_task ''B'') (to_zero_shot (ex_task ''B'')) ''B''
          (fst (snd (make_update_fns ex_lib 3 ''B''))) ex_watched))) =
     [''B log one line'', ''B log Traceback: boom'']"
proof -
  have l: "fst (snd (make_fs ''B'')) (format_exc ex_lib (Failure ''boom''))
             \<lparr>clock = 1, debug = [Task_log ''B'' ''one line'']\<rparr> =
           (None, \<lparr>clock = 1, debug = [Task_log ''B'' ''one line'', Task_log ''B'' ''Traceback: boom'']\<rparr>)"
    by (simp add: make_fs_def logger_debug_def ex_lib_def)
  have e: "is_Exception (Failure ''boom'')" by simp
  have i: "wsm_inv \<lparr>history = [''B log one line''], websockets = [8], disconnect_events = [8 \<mapsto> 1],
          is_closed = False\<rparr>" by (simp add: wsm_inv_def)
  from task_failure_becomes_error_result
         [OF ex_headless_B_raises e l ex_served_B_raises e, of "to_zero_shot (ex_task ''B'')"] i
  obtain u3 where
    a: "run_task ex_lib (ex_task ''B'') [] ex_runner (fst (snd (make_fs ''B''))) ex_headless =
          (Inr \<lparr>r_task_id = zs_id (to_zero_shot (ex_task ''B'')), r_command = [],
                 r_prompt = zs_prompt (to_zero_shot (ex_task ''B'')), r_start = clock ex_headless,
                 r_end = 1, r_messages = [], r_status = Error\<rparr>,
           snd (now \<lparr>clock = 1, debug = [Task_log ''B'' ''one line'', Task_log ''B'' ''Traceback: boom'']\<rparr>))"
    and b: "server_run_task ex_lib ex_runner [] (ex_task ''B'') (to_zero_shot (ex_task ''B'')) ''B''
          (fst (snd (make_update_fns ex_lib 3 ''B''))) ex_watched =
          (Inr \<lparr>r_task_id = zs_id (to_zero_shot (ex_task ''B'')), r_command = [],
                 r_prompt = zs_prompt (to_zero_shot (ex_task ''B'')), r_start = clock ex_watched,
                 r_end = 1, r_messages = [], r_status = Error\<rparr>, u3)"
    and c: "history (updates_manager u3) =
              [''B log one line''] @
                [json_dumps ex_lib (TaskUpdate ''B'' (Log (format_exc ex_lib (Failure ''boom''))))]"
    by auto
  have z: "zs_id (to_zero_shot (ex_task ''B'')) = ''B''"
    "zs_prompt (to_zero_shot (ex_task ''B'')) = ''prompt of B''"
    "clock ex_headless = 0" "clock ex_watched = 0"
    "json_dumps ex_lib (TaskUpdate ''B'' (Log (format_exc ex_lib (Failure ''boom'')))) = ''B log Traceback: boom''"
    by (simp_all add: ex_task_def ex_headless_def ex_watched_eq ex_lib_def)
  show ?thesis unfolding a b using c by (simp add: z now_def)
qed

section \<open>The request handlers\<close>


text \<open>
  Claim C9.  The three requests that name a task, for an identifier that is not in the batch
  of tasks A, B and C.  The metadata view checks the identifier and raises the not-found
  exception of the web framework, status 404.  The log stream and the stop request index
  the manager dictionary without a check: they raise \<open>KeyError\<close>, which is not a not-found
  failure.  None of them changes the state of the coordinator.
\<close>

theorem unknown_task_id_requests:
  "map fst (make_zs_map ex_zs_tasks) = [''A'', ''B'', ''C''] \<and>
   map fst (task_managers ex_watched) = [''A'', ''B'', ''C''] \<and>
   view (make_zs_map ex_zs_tasks) [] ''nope'' = Inl (HTTPException 404) \<and>
   logs 7 ''nope'' ex_watched = (Inl KeyError, ex_watched) \<and>
   stop ''nope'' ex_watched = (Inl KeyError, ex_watched)"
  by (simp add: make_zs_map_def ex_zs_tasks_def ex_task_def view_def logs_def stop_def
        on_manager_def ex_watched_eq)

section \<open>The state of the coordinator with the server\<close>






























lemma sleep_loop_interrupt_at: "t \<le> k \<Longrightarrow> sleep_loop (interrupt_at k) t = Some k"
proof (induction "k - t" arbitrary: t)
  case 0
  then show ?case by (subst sleep_loop.simps) (simp add: interrupt_at_def)
next
  case (Suc d)
  then have "Suc t \<le> k" "d = k - Suc t" "t \<noteq> k" by simp_all
  with Suc.hyps(1)[of "Suc t"] show ?case
    by (subst sleep_loop.simps) (simp add: interrupt_at_def)
qed











section \<open>The coordinator without the server\<close>





section \<open>The results that the coordinators return\<close>












section \<open>Closing the channels\<close>








end
